theory Spec2Isabelle
  imports Main "HOL-Library.Sublist"
begin

section \<open>Strings, numerals and instants\<close>

text \<open>
  A JavaScript string is a sequence of UTF-16 code units. The slug's alphabet reaches
  into the Cyrillic block (U+0400 to U+04FF), so a code unit is a natural number here,
  not an 8-bit \<^typ>\<open>char\<close>. \<open>str\<close> turns an ASCII literal into such a string.
\<close>

type_synonym jsstring = "nat list"

definition str :: "string \<Rightarrow> jsstring" where
  "str s = map of_char s"

text \<open>\<open>Number.prototype.toString\<close> and a template literal, on an integer: the decimal numeral.\<close>

fun decimal :: "nat \<Rightarrow> jsstring" where
  "decimal n = (if n < 10 then [48 + n] else decimal (n div 10) @ [48 + n mod 10])"

declare decimal.simps [simp del]

definition toString :: "int \<Rightarrow> jsstring" where
  "toString i = (if i < 0 then 45 # decimal (nat (- i)) else decimal (nat i))"

text \<open>A numeral padded with zeros on the left to a given width.\<close>

definition pad :: "nat \<Rightarrow> nat \<Rightarrow> jsstring" where
  "pad w n = replicate (w - length (decimal n)) 48 @ decimal n"

text \<open>
  The calendar date of a day counted from 1970-01-01, in the proleptic Gregorian
  calendar: the day's place in its era of 400 years, the year of the era (years begin in
  March), the day of that year, the month counted from March, and from these the day of
  the month, the month and the year. Both SQLite's \<open>CURRENT_TIMESTAMP\<close> and
  \<open>Date.prototype.toISOString\<close> print UTC.
\<close>

definition day_of_era :: "nat \<Rightarrow> nat" where
  "day_of_era days = (days + 719468) mod 146097"

definition year_of_era :: "nat \<Rightarrow> nat" where
  "year_of_era days =
     (day_of_era days - day_of_era days div 1460 + day_of_era days div 36524
        - day_of_era days div 146096) div 365"

definition day_of_year :: "nat \<Rightarrow> nat" where
  "day_of_year days =
     day_of_era days
       - (365 * year_of_era days + year_of_era days div 4 - year_of_era days div 100)"

definition month_from_march :: "nat \<Rightarrow> nat" where
  "month_from_march days = (5 * day_of_year days + 2) div 153"

definition day_of :: "nat \<Rightarrow> nat" where
  "day_of days = day_of_year days - (153 * month_from_march days + 2) div 5 + 1"

definition month_of :: "nat \<Rightarrow> nat" where
  "month_of days =
     (if month_from_march days < 10 then month_from_march days + 3
      else month_from_march days - 9)"

definition year_of :: "nat \<Rightarrow> nat" where
  "year_of days =
     year_of_era days + (days + 719468) div 146097 * 400
       + (if month_of days \<le> 2 then 1 else 0)"

definition date_text :: "nat \<Rightarrow> jsstring" where
  "date_text days = str ''-'' @ pad 2 (month_of days) @ str ''-'' @ pad 2 (day_of days)"

definition clock_text :: "nat \<Rightarrow> jsstring" where
  "clock_text secs =
     pad 2 (secs div 3600 mod 24) @ str '':'' @ pad 2 (secs div 60 mod 60) @ str '':''
       @ pad 2 (secs mod 60)"

text \<open>
  \<open>CURRENT_TIMESTAMP\<close> of SQLite at an instant given in milliseconds since the epoch:
  the text \<open>YYYY-MM-DD HH:MM:SS\<close>.
\<close>

definition CURRENT_TIMESTAMP :: "nat \<Rightarrow> jsstring" where
  "CURRENT_TIMESTAMP ms =
     pad 4 (year_of (ms div 86400000)) @ date_text (ms div 86400000) @ str '' ''
       @ clock_text (ms div 1000)"

text \<open>
  \<open>new Date().toISOString()\<close> at an instant given in milliseconds since the epoch: the
  text \<open>YYYY-MM-DDTHH:MM:SS.mmmZ\<close>, the year written with a sign and six digits past
  the year 9999.
\<close>

definition toISOString :: "nat \<Rightarrow> jsstring" where
  "toISOString ms =
     (if year_of (ms div 86400000) \<le> 9999 then pad 4 (year_of (ms div 86400000))
      else str ''+'' @ pad 6 (year_of (ms div 86400000)))
       @ date_text (ms div 86400000) @ str ''T'' @ clock_text (ms div 1000)
       @ str ''.'' @ pad 3 (ms mod 1000) @ str ''Z''"

section \<open>Slug derivation\<close>

text \<open>
  \<^verbatim>\<open>
  function createSlug(title) {
    return title
      .toLowerCase()
      .replace(/[^\w\u0400-\u04FF]+/g, '-')
      .replace(/^-+|-+$/g, '')
      .substring(0, 100);
  }
  \<close>
  The two regular expressions have no \<open>u\<close> or \<open>i\<close> flag: they work on code units and
  \<open>\w\<close> is \<open>[A-Za-z0-9_]\<close>.
\<close>

definition word_char :: "nat \<Rightarrow> bool" where
  "word_char c =
     ((48 \<le> c \<and> c \<le> 57) \<or> (65 \<le> c \<and> c \<le> 90) \<or> c = 95 \<or> (97 \<le> c \<and> c \<le> 122))"

definition permitted :: "nat \<Rightarrow> bool" where
  "permitted c = (word_char c \<or> (1024 \<le> c \<and> c \<le> 1279))"

definition is_dash :: "nat \<Rightarrow> bool" where
  "is_dash c = (c = 45)"

text \<open>
  \<open>String.prototype.replace\<close> with a global regular expression. A matcher stands for
  the expression: told whether the position is the start of the input, and given the
  input from the position on, it answers the length of the match there, if any. The
  scan replaces the match and goes on behind it, or keeps the code unit and moves one
  position on; after an empty match it does both.
\<close>

type_synonym matcher = "bool \<Rightarrow> jsstring \<Rightarrow> nat option"

function replace_all :: "matcher \<Rightarrow> jsstring \<Rightarrow> bool \<Rightarrow> jsstring \<Rightarrow> jsstring" where
  "replace_all m r at_start s =
     (case s of
        [] \<Rightarrow> (case m at_start [] of Some _ \<Rightarrow> r | None \<Rightarrow> [])
      | c # cs \<Rightarrow>
          (case m at_start s of
             None \<Rightarrow> c # replace_all m r False cs
           | Some 0 \<Rightarrow> r @ c # replace_all m r False cs
           | Some (Suc k) \<Rightarrow> r @ replace_all m r False (drop (Suc k) s)))"
  by pat_completeness auto
termination
  by (relation "measure (\<lambda>(m, r, b, s). length s)") auto

declare replace_all.simps [simp del]

text \<open>\<open>[^\w\u0400-\u04FF]+\<close>: the longest run of code units outside the class, not empty.\<close>

definition run_outside :: matcher where
  "run_outside at_start s =
     (case takeWhile (\<lambda>c. \<not> permitted c) s of
        [] \<Rightarrow> None
      | x # xs \<Rightarrow> Some (length (x # xs)))"

text \<open>
  \<open>^-+|-+$\<close>: at the start of the input the first alternative takes the longest run of
  dashes; anywhere else only the second alternative can match, and it does when dashes
  are all that is left.
\<close>

definition edge_dashes :: matcher where
  "edge_dashes at_start s =
     (let n = length (takeWhile is_dash s)
      in if n = 0 then None
         else if at_start then Some n
         else if n = length s then Some n else None)"

text \<open>
  \<open>String.prototype.toLowerCase\<close> is the engine's, with the case mapping of all of
  Unicode; it is the parameter \<open>toLowerCase\<close> of \<open>createSlug\<close> and of the operations that
  call it.
\<close>

definition createSlug :: "(jsstring \<Rightarrow> jsstring) \<Rightarrow> jsstring \<Rightarrow> jsstring" where
  "createSlug toLowerCase title =
     take 100
       (replace_all edge_dashes [] True
          (replace_all run_outside (str ''-'') True (toLowerCase title)))"

text \<open>
  The case mapping of the letters A to Z and of the Cyrillic capitals U+0400 to U+042F,
  on which it agrees with the engine's; the examples use it.
\<close>

definition lower_basic :: "jsstring \<Rightarrow> jsstring" where
  "lower_basic s =
     map (\<lambda>c. if 65 \<le> c \<and> c \<le> 90 then c + 32
              else if 1024 \<le> c \<and> c \<le> 1039 then c + 80
              else if 1040 \<le> c \<and> c \<le> 1071 then c + 32
              else c) s"

text \<open>
  The slug as the specification words it: every run of code units outside the permitted
  alphabet becomes one separator, the separators at both ends are trimmed, and the
  result is cut to 100 code units.
\<close>

function collapse :: "jsstring \<Rightarrow> jsstring" where
  "collapse [] = []"
| "collapse (c # cs) =
     (if permitted c then c # collapse cs
      else 45 # collapse (dropWhile (\<lambda>c. \<not> permitted c) cs))"
  by pat_completeness auto
termination
  by (relation "measure length") (auto simp: le_imp_less_Suc length_dropWhile_le)

definition trim_dashes :: "jsstring \<Rightarrow> jsstring" where
  "trim_dashes s = rev (dropWhile is_dash (rev (dropWhile is_dash s)))"

definition spec_slug :: "jsstring \<Rightarrow> jsstring" where
  "spec_slug lowered = take 100 (trim_dashes (collapse lowered))"

section \<open>Values, files and paths\<close>

text \<open>
  The values \<open>JSON.parse\<close> can return. An object is the list of its properties in the
  order of their insertion, each key once. Numbers are the integers.
\<close>

datatype jsval =
    JNull
  | JBool bool
  | JNum int
  | JStr jsstring
  | JArr "jsval list"
  | JObj "(jsstring \<times> jsval) list"

text \<open>
  What a file holds. A file whose bytes are a JSON document is kept as the document,
  \<open>Json v\<close>, and any other file as its text: \<open>JSON.stringify\<close> writes \<open>Json v\<close>,
  \<open>JSON.parse\<close> returns \<open>v\<close> from it and throws a \<open>SyntaxError\<close> on a \<open>Text\<close>.
\<close>

datatype fdata = Text jsstring | Json jsval

datatype error =
    ENOENT | EISDIR | ENOTDIR | EEXIST
  | SyntaxError | TypeError
  | SQLITE_CONSTRAINT_UNIQUE | SQLITE_CONSTRAINT_NOTNULL | SQLITE_MISMATCH

definition JSON_stringify :: "jsval \<Rightarrow> fdata" where
  "JSON_stringify v = Json v"

fun JSON_parse :: "fdata \<Rightarrow> error + jsval" where
  "JSON_parse (Json v) = Inr v"
| "JSON_parse (Text s) = Inl SyntaxError"

text \<open>
  Reading a property \<open>v.k\<close>: \<open>None\<close> is \<open>undefined\<close>. Reading from \<open>null\<close> throws; a
  number, a string, a boolean or an array has none of the properties read here.
\<close>

fun get_prop :: "jsval \<Rightarrow> jsstring \<Rightarrow> error + jsval option" where
  "get_prop JNull k = Inl TypeError"
| "get_prop (JObj kvs) k = Inr (map_of kvs k)"
| "get_prop v k = Inr None"



text \<open>
  A path is absolute and normalised: the list of its segments below the root. The file
  system is the list of its entries, each path once; the order of the list is the order
  in which \<open>readdirSync\<close> lists a directory. The root is a directory.
\<close>

type_synonym path = "jsstring list"

datatype node = Dir | File fdata

type_synonym filesystem = "(path \<times> node) list"

definition stat :: "filesystem \<Rightarrow> path \<Rightarrow> node option" where
  "stat fs p = (if p = [] then Some Dir else map_of fs p)"

definition existsSync :: "filesystem \<Rightarrow> path \<Rightarrow> bool" where
  "existsSync fs p = (stat fs p \<noteq> None)"

definition readFileSync :: "filesystem \<Rightarrow> path \<Rightarrow> error + fdata" where
  "readFileSync fs p =
     (case stat fs p of
        None \<Rightarrow> Inl ENOENT
      | Some Dir \<Rightarrow> Inl EISDIR
      | Some (File d) \<Rightarrow> Inr d)"

fun fs_put :: "path \<Rightarrow> node \<Rightarrow> filesystem \<Rightarrow> filesystem" where
  "fs_put p n [] = [(p, n)]"
| "fs_put p n ((q, m) # fs) = (if q = p then (p, n) # fs else (q, m) # fs_put p n fs)"

text \<open>\<open>fs.writeFileSync\<close>: the file is created or overwritten in a directory that exists.\<close>

definition writeFileSync :: "filesystem \<Rightarrow> path \<Rightarrow> fdata \<Rightarrow> error + filesystem" where
  "writeFileSync fs p d =
     (case stat fs p of
        Some Dir \<Rightarrow> Inl EISDIR
      | _ \<Rightarrow>
          (case stat fs (butlast p) of
             None \<Rightarrow> Inl ENOENT
           | Some (File _) \<Rightarrow> Inl ENOTDIR
           | Some Dir \<Rightarrow> Inr (fs_put p (File d) fs)))"

text \<open>
  \<open>fs.mkdirSync(p, { recursive: true })\<close>: every missing directory on the way is
  created; a file on the way makes it fail, and then nothing is created.
\<close>

fun mkdirs :: "filesystem \<Rightarrow> path \<Rightarrow> jsstring list \<Rightarrow> error + filesystem" where
  "mkdirs fs pre [] = Inr fs"
| "mkdirs fs pre (s # ss) =
     (case stat fs (pre @ [s]) of
        Some Dir \<Rightarrow> mkdirs fs (pre @ [s]) ss
      | Some (File _) \<Rightarrow> Inl (if ss = [] then EEXIST else ENOTDIR)
      | None \<Rightarrow> mkdirs (fs_put (pre @ [s]) Dir fs) (pre @ [s]) ss)"

definition mkdirSync :: "filesystem \<Rightarrow> path \<Rightarrow> error + filesystem" where
  "mkdirSync fs p = mkdirs fs [] p"

text \<open>\<open>fs.rmSync(p, { recursive: true, force: true })\<close>: the entry and all below it go.\<close>

definition rmSync :: "filesystem \<Rightarrow> path \<Rightarrow> filesystem" where
  "rmSync fs p = filter (\<lambda>(q, n). \<not> prefix p q) fs"

definition unlinkSync :: "filesystem \<Rightarrow> path \<Rightarrow> error + filesystem" where
  "unlinkSync fs p =
     (case stat fs p of
        None \<Rightarrow> Inl ENOENT
      | Some Dir \<Rightarrow> Inl EISDIR
      | Some (File _) \<Rightarrow> Inr (filter (\<lambda>(q, n). q \<noteq> p) fs))"

text \<open>
  \<open>fs.readdirSync(p, { withFileTypes: true })\<close>: the entries right below \<open>p\<close>, each with
  its name and its kind.
\<close>

definition readdirSync :: "filesystem \<Rightarrow> path \<Rightarrow> error + (jsstring \<times> node) list" where
  "readdirSync fs p =
     (case stat fs p of
        None \<Rightarrow> Inl ENOENT
      | Some (File _) \<Rightarrow> Inl ENOTDIR
      | Some Dir \<Rightarrow> Inr (map (\<lambda>(q, n). (last q, n)) (filter (\<lambda>(q, n). q \<noteq> [] \<and> butlast q = p) fs)))"

text \<open>
  \<open>path.join\<close> below an absolute, normalised base (POSIX): the arguments are cut at
  every \<open>/\<close>, an empty segment and \<open>.\<close> are dropped, and \<open>..\<close> steps to the parent, which
  for the root is the root.
\<close>

fun split_from :: "jsstring \<Rightarrow> jsstring \<Rightarrow> jsstring list" where
  "split_from cur [] = [rev cur]"
| "split_from cur (c # cs) =
     (if c = 47 then rev cur # split_from [] cs else split_from (c # cur) cs)"

definition split_slash :: "jsstring \<Rightarrow> jsstring list" where
  "split_slash s = split_from [] s"

fun normalize :: "jsstring list \<Rightarrow> path \<Rightarrow> path" where
  "normalize [] p = p"
| "normalize (s # ss) p =
     (if s = [] \<or> s = str ''.'' then normalize ss p
      else if s = str ''..'' then normalize ss (butlast p)
      else normalize ss (p @ [s]))"

definition path_join :: "path \<Rightarrow> jsstring list \<Rightarrow> path" where
  "path_join base parts = normalize (concat (map split_slash parts)) base"

text \<open>
  \<open>path.join\<close> keeps a slash at the end of its last argument, and at a path written
  with a slash at its end \<open>fs\<close> finds a directory only. A path has no such slash here;
  where a string of the caller is joined, \<open>ends_with_slash\<close> tells of it and
  \<open>exists_named\<close> is \<open>fs.existsSync\<close> of the path so written.
\<close>

definition ends_with_slash :: "jsstring \<Rightarrow> bool" where
  "ends_with_slash s = (s \<noteq> [] \<and> last s = 47)"

definition exists_named :: "filesystem \<Rightarrow> path \<Rightarrow> bool \<Rightarrow> bool" where
  "exists_named fs p with_slash =
     (case stat fs p of
        None \<Rightarrow> False
      | Some Dir \<Rightarrow> True
      | Some (File d) \<Rightarrow> \<not> with_slash)"

text \<open>
  \<open>path.extname\<close>: from the last dot of the last segment to its end, and empty when
  the segment has no dot, starts with its only dot, or is \<open>..\<close>.
\<close>

definition extname :: "jsstring \<Rightarrow> jsstring" where
  "extname p =
     (let segs = filter (\<lambda>s. s \<noteq> []) (split_slash p);
          base = (if segs = [] then [] else last segs);
          stem = rev (drop 1 (dropWhile (\<lambda>c. c \<noteq> 46) (rev base)))
      in if 46 \<notin> set base \<or> stem = [] \<or> base = str ''..'' then []
         else drop (length stem) base)"

text \<open>\<open>__dirname\<close> of \<open>database.js\<close>, and the directory of the articles below it.\<close>

definition dirname :: path where
  "dirname = [str ''srv'', str ''blog'']"

definition ARTICLES_DIR :: path where
  "ARTICLES_DIR = path_join dirname [str ''articles'']"

section \<open>The posts table\<close>

text \<open>
  \<^verbatim>\<open>
  CREATE TABLE IF NOT EXISTS posts (
    id INTEGER PRIMARY KEY AUTOINCREMENT,
    title TEXT NOT NULL,
    slug TEXT UNIQUE,
    created_at DATETIME DEFAULT CURRENT_TIMESTAMP,
    updated_at DATETIME DEFAULT CURRENT_TIMESTAMP
  )
  \<close>
  A row has its key, a title that is never \<open>NULL\<close>, a slug that may be, and two
  timestamps of any storage class. The database is the list of the rows together with
  the entry of the table in \<open>sqlite_sequence\<close>: the largest key ever given, which
  \<open>AUTOINCREMENT\<close> keeps and \<open>DELETE\<close> does not reset. The order of the rows is the order
  of their insertion; no statement modelled here reads it.
\<close>

datatype sqlval = SNull | SInt int | SText jsstring

record post_row =
  row_id :: int
  row_title :: jsstring
  row_slug :: "jsstring option"
  row_created_at :: sqlval
  row_updated_at :: sqlval

record database =
  posts :: "post_row list"
  posts_seq :: int

text \<open>The key \<open>AUTOINCREMENT\<close> gives: one past the largest key the table has or ever had.\<close>

definition next_rowid :: "database \<Rightarrow> int" where
  "next_rowid db = fold max (map row_id (posts db)) (posts_seq db) + 1"

text \<open>
  \<^verbatim>\<open>INSERT INTO posts (title, slug, created_at, updated_at)
     VALUES (?, ?, CURRENT_TIMESTAMP, CURRENT_TIMESTAMP)\<close>
  run with a title and a slug that are strings, at the instant \<open>now\<close>. It answers
  \<open>lastInsertRowid\<close>.
\<close>

definition sql_insert :: "jsstring \<Rightarrow> jsstring \<Rightarrow> nat \<Rightarrow> database \<Rightarrow> error + (int \<times> database)" where
  "sql_insert title slug now db =
     (if \<exists>r \<in> set (posts db). row_slug r = Some slug then Inl SQLITE_CONSTRAINT_UNIQUE
      else
        let i = next_rowid db;
            r = \<lparr>row_id = i, row_title = title, row_slug = Some slug,
                 row_created_at = SText (CURRENT_TIMESTAMP now),
                 row_updated_at = SText (CURRENT_TIMESTAMP now)\<rparr>
        in Inr (i, db\<lparr>posts := posts db @ [r], posts_seq := i\<rparr>))"


text \<open>\<^verbatim>\<open>DELETE FROM posts WHERE id = ?\<close> and \<^verbatim>\<open>DELETE FROM posts\<close>\<close>

definition sql_delete :: "int \<Rightarrow> database \<Rightarrow> database" where
  "sql_delete i db = db\<lparr>posts := filter (\<lambda>r. row_id r \<noteq> i) (posts db)\<rparr>"


text \<open>\<^verbatim>\<open>SELECT * FROM posts WHERE id = ?\<close>, with \<open>get\<close>: the row, or \<open>undefined\<close>.\<close>

definition sql_select :: "int \<Rightarrow> database \<Rightarrow> post_row option" where
  "sql_select i db = find (\<lambda>r. row_id r = i) (posts db)"








section \<open>The operations of \<open>database.js\<close>\<close>

text \<open>
  An operation takes the database and the file system and returns them changed, with
  its result or, as \<open>Inl\<close>, the error it throws. The instants at which it reads the
  clock are arguments, in milliseconds since the epoch. A post id is the integer of the
  key column; \<open>id.toString()\<close> is its decimal numeral.
\<close>

definition then_do :: "error + 'a \<Rightarrow> ('a \<Rightarrow> error + 'b) \<Rightarrow> error + 'b" where
  "then_do r f = (case r of Inl e \<Rightarrow> Inl e | Inr x \<Rightarrow> f x)"

definition article_path :: "int \<Rightarrow> path" where
  "article_path postId = path_join ARTICLES_DIR [toString postId]"

definition content_path :: "int \<Rightarrow> path" where
  "content_path postId = path_join (article_path postId) [str ''content.html'']"

definition info_path :: "int \<Rightarrow> path" where
  "info_path postId = path_join (article_path postId) [str ''info.json'']"

definition assets_path :: "int \<Rightarrow> path" where
  "assets_path postId = path_join ARTICLES_DIR [toString postId, str ''assets'']"

text \<open>
  \<^verbatim>\<open>
  function createArticleFolder(postId) {
    const articlePath = path.join(ARTICLES_DIR, postId.toString());
    if (!fs.existsSync(articlePath)) {
      fs.mkdirSync(articlePath, { recursive: true });
      fs.mkdirSync(path.join(articlePath, 'assets'), { recursive: true });
    }
    return articlePath;
  }
  \<close>
\<close>

definition createArticleFolder :: "filesystem \<Rightarrow> int \<Rightarrow> (error + path) \<times> filesystem" where
  "createArticleFolder fs postId =
     (let articlePath = article_path postId
      in if \<not> existsSync fs articlePath then
           (case mkdirSync fs articlePath of
              Inl e \<Rightarrow> (Inl e, fs)
            | Inr fs1 \<Rightarrow>
                (case mkdirSync fs1 (path_join articlePath [str ''assets'']) of
                   Inl e \<Rightarrow> (Inl e, fs1)
                 | Inr fs2 \<Rightarrow> (Inr articlePath, fs2)))
         else (Inr articlePath, fs))"

text \<open>The object \<open>info\<close> that \<open>createPost\<close> builds.\<close>

definition new_info :: "int \<Rightarrow> jsstring \<Rightarrow> jsstring \<Rightarrow> nat \<Rightarrow> nat \<Rightarrow> jsval" where
  "new_info postId title slug t_created t_updated =
     JObj [(str ''id'', JNum postId),
           (str ''title'', JStr title),
           (str ''slug'', JStr slug),
           (str ''created_at'', JStr (toISOString t_created)),
           (str ''updated_at'', JStr (toISOString t_updated))]"

text \<open>
  \<open>createPost(title, content)\<close>, the whole of it inside \<open>db.transaction\<close>: an error
  thrown anywhere in it rolls the database back to what it was, and leaves the file
  system as far as it had been written. \<open>t_insert\<close> is the instant of the \<open>INSERT\<close>,
  \<open>t_created\<close> and \<open>t_updated\<close> are the instants of the two \<open>new Date()\<close>.
\<close>

definition createPost ::
    "(jsstring \<Rightarrow> jsstring) \<Rightarrow> jsstring \<Rightarrow> jsstring \<Rightarrow> nat \<Rightarrow> nat \<Rightarrow> nat \<Rightarrow> database \<Rightarrow> filesystem
      \<Rightarrow> (error + (int \<times> jsstring \<times> path)) \<times> database \<times> filesystem" where
  "createPost toLowerCase title content t_insert t_created t_updated db fs =
     (let slug = createSlug toLowerCase title
      in case sql_insert title slug t_insert db of
           Inl e \<Rightarrow> (Inl e, db, fs)
         | Inr (postId, db1) \<Rightarrow>
             (case createArticleFolder fs postId of
                (Inl e, fs1) \<Rightarrow> (Inl e, db, fs1)
              | (Inr articlePath, fs1) \<Rightarrow>
                  (case writeFileSync fs1 (path_join articlePath [str ''content.html'']) (Text content) of
                     Inl e \<Rightarrow> (Inl e, db, fs1)
                   | Inr fs2 \<Rightarrow>
                       (let info = new_info postId title slug t_created t_updated
                        in case writeFileSync fs2 (path_join articlePath [str ''info.json''])
                                  (JSON_stringify info) of
                             Inl e \<Rightarrow> (Inl e, db, fs2)
                           | Inr fs3 \<Rightarrow> (Inr (postId, slug, articlePath), db1, fs3)))))"




text \<open>\<open>deletePost(id)\<close>\<close>

definition deletePost :: "int \<Rightarrow> database \<Rightarrow> filesystem \<Rightarrow> database \<times> filesystem" where
  "deletePost postId db fs =
     (let db1 = sql_delete postId db;
          articlePath = article_path postId
      in (db1, if existsSync fs articlePath then rmSync fs articlePath else fs))"

text \<open>
  \<open>getPostById(id)\<close>: \<open>null\<close>, here \<open>None\<close>, when the table has no such row; otherwise the
  row with the content of the post and, when the snapshot file exists, the snapshot.
\<close>

record post =
  post_row :: post_row
  post_content :: fdata
  post_info :: "jsval option"

definition getPostById :: "int \<Rightarrow> database \<Rightarrow> filesystem \<Rightarrow> error + post option" where
  "getPostById postId db fs =
     (case sql_select postId db of
        None \<Rightarrow> Inr None
      | Some r \<Rightarrow>
          then_do (if existsSync fs (content_path postId)
                   then readFileSync fs (content_path postId)
                   else Inr (Text [])) (\<lambda>content.
          then_do (if existsSync fs (info_path postId)
                   then then_do (then_do (readFileSync fs (info_path postId)) JSON_parse)
                          (\<lambda>v. Inr (Some v))
                   else Inr None) (\<lambda>info.
          Inr (Some \<lparr>post_row = r, post_content = content, post_info = info\<rparr>))))"

text \<open>
  \<open>uploadImageToPost(postId, imageBuffer, filename)\<close>. \<open>now\<close> is \<open>Date.now()\<close> and \<open>rnd\<close>
  is \<open>Math.random().toString(36).substr(2, 9)\<close>.
\<close>

definition uploadImageToPost ::
    "filesystem \<Rightarrow> int \<Rightarrow> fdata \<Rightarrow> jsstring \<Rightarrow> nat \<Rightarrow> jsstring \<Rightarrow> (error + jsstring) \<times> filesystem" where
  "uploadImageToPost fs postId imageBuffer filename now rnd =
     (let assetsPath = assets_path postId
      in case (if \<not> existsSync fs assetsPath then mkdirSync fs assetsPath else Inr fs) of
           Inl e \<Rightarrow> (Inl e, fs)
         | Inr fs1 \<Rightarrow>
             (let ext = extname filename;
                  uniqueName = decimal now @ str ''-'' @ rnd @ ext;
                  filePath = path_join assetsPath [uniqueName]
              in case writeFileSync fs1 filePath imageBuffer of
                   Inl e \<Rightarrow> (Inl e, fs1)
                 | Inr fs2 \<Rightarrow>
                     (Inr (str ''/api/article-asset/'' @ toString postId @ str ''/'' @ uniqueName),
                      fs2)))"

text \<open>\<open>getArticleAsset(postId, filename)\<close>\<close>

definition asset_file_path :: "int \<Rightarrow> jsstring \<Rightarrow> path" where
  "asset_file_path postId filename =
     path_join ARTICLES_DIR [toString postId, str ''assets'', filename]"

definition getArticleAsset :: "filesystem \<Rightarrow> int \<Rightarrow> jsstring \<Rightarrow> error + fdata option" where
  "getArticleAsset fs postId filename =
     (let filePath = asset_file_path postId filename
      in if exists_named fs filePath (ends_with_slash filename)
         then then_do (readFileSync fs filePath) (\<lambda>d. Inr (Some d))
         else Inr None)"


definition folder_info_path :: "jsstring \<Rightarrow> path" where
  "folder_info_path folder = path_join ARTICLES_DIR [folder, str ''info.json'']"





section \<open>The upload route of the server\<close>

text \<open>
  \<open>app.post('/api/upload-image/:postId', requireAuth, upload.single('image'), ...)\<close>.
  When the handler runs, \<open>multer\<close> has staged the upload: \<open>req.file\<close> is \<open>undefined\<close>, here
  \<open>None\<close>, or tells the path of the temporary copy, the name the client gave and the
  number of bytes.
\<close>

record upload_file =
  file_path :: path
  originalname :: jsstring
  file_size :: nat

datatype upload_response =
    Status400_no_file
  | Status400_too_large
  | Status200_url jsstring
  | Status500_upload_failed
  | Unhandled error

text \<open>What stands between \<open>try\<close> and \<open>catch\<close>, once \<open>req.file\<close> is there.\<close>

definition upload_try ::
    "filesystem \<Rightarrow> int \<Rightarrow> upload_file \<Rightarrow> nat \<Rightarrow> jsstring \<Rightarrow> (error + upload_response) \<times> filesystem" where
  "upload_try fs postId f now rnd =
     (if file_size f > 10 * 1024 * 1024 then
        (case unlinkSync fs (file_path f) of
           Inl e \<Rightarrow> (Inl e, fs)
         | Inr fs1 \<Rightarrow> (Inr Status400_too_large, fs1))
      else
        (case readFileSync fs (file_path f) of
           Inl e \<Rightarrow> (Inl e, fs)
         | Inr imageBuffer \<Rightarrow>
             (case uploadImageToPost fs postId imageBuffer (originalname f) now rnd of
                (Inl e, fs1) \<Rightarrow> (Inl e, fs1)
              | (Inr imageUrl, fs1) \<Rightarrow>
                  (case unlinkSync fs1 (file_path f) of
                     Inl e \<Rightarrow> (Inl e, fs1)
                   | Inr fs2 \<Rightarrow> (Inr (Status200_url imageUrl), fs2)))))"

definition upload_image :: 
    "filesystem \<Rightarrow> int \<Rightarrow> upload_file option \<Rightarrow> nat \<Rightarrow> jsstring \<Rightarrow> upload_response \<times> filesystem" where
  "upload_image fs postId file now rnd =
     (case file of
        None \<Rightarrow> (Status400_no_file, fs)
      | Some f \<Rightarrow>
          (case upload_try fs postId f now rnd of
             (Inr response, fs1) \<Rightarrow> (response, fs1)
           | (Inl e, fs1) \<Rightarrow>
               if existsSync fs1 (file_path f) then
                 (case unlinkSync fs1 (file_path f) of
                    Inl e' \<Rightarrow> (Unhandled e', fs1)
                  | Inr fs2 \<Rightarrow> (Status500_upload_failed, fs2))
               else (Status500_upload_failed, fs1)))"

text \<open>A segment that \<open>path.join\<close> appends as it is.\<close>

definition plain_segment :: "jsstring \<Rightarrow> bool" where
  "plain_segment s = (s \<noteq> [] \<and> 47 \<notin> set s \<and> s \<noteq> str ''.'' \<and> s \<noteq> str ''..'')"

section \<open>Example states\<close>

text \<open>
  A fresh installation, and the state after the first post was created in it at the
  instant 1700000000000.
\<close>

definition empty_db :: database where
  "empty_db = \<lparr>posts = [], posts_seq = 0\<rparr>"

definition empty_fs :: filesystem where
  "empty_fs =
     [([str ''srv''], Dir),
      ([str ''srv'', str ''blog''], Dir),
      ([str ''srv'', str ''blog'', str ''articles''], Dir)]"

definition hello_row :: post_row where
  "hello_row =
     \<lparr>row_id = 1, row_title = str ''Hello World'', row_slug = Some (str ''hello-world''),
      row_created_at = SText (str ''2023-11-14 22:13:20''),
      row_updated_at = SText (str ''2023-11-14 22:13:20'')\<rparr>"

definition hello_db :: database where
  "hello_db = \<lparr>posts = [hello_row], posts_seq = 1\<rparr>"

definition hello_info :: jsval where
  "hello_info =
     JObj [(str ''id'', JNum 1),
           (str ''title'', JStr (str ''Hello World'')),
           (str ''slug'', JStr (str ''hello-world'')),
           (str ''created_at'', JStr (str ''2023-11-14T22:13:20.000Z'')),
           (str ''updated_at'', JStr (str ''2023-11-14T22:13:20.000Z''))]"

definition hello_dir :: path where
  "hello_dir = [str ''srv'', str ''blog'', str ''articles'', str ''1'']"

definition hello_fs :: filesystem where
  "hello_fs =
     empty_fs @
     [(hello_dir, Dir),
      (hello_dir @ [str ''assets''], Dir),
      (hello_dir @ [str ''content.html''], File (Text (str ''<p>hi</p>''))),
      (hello_dir @ [str ''info.json''], File (Json hello_info))]"

text \<open>A property of the snapshot of a post, read from its file.\<close>

definition snapshot_field :: "filesystem \<Rightarrow> int \<Rightarrow> jsstring \<Rightarrow> error + jsval option" where
  "snapshot_field fs postId k =
     then_do (then_do (readFileSync fs (info_path postId)) JSON_parse) (\<lambda>info. get_prop info k)"

text \<open>
  In a file system every entry lies in a directory: the parent of its path is there,
  and is a directory.
\<close>

definition parent_closed :: "filesystem \<Rightarrow> bool" where
  "parent_closed fs = list_all (\<lambda>(p, n). p \<noteq> [] \<and> stat fs (butlast p) = Some Dir) fs"

text \<open>
  The first post with its content file lost and its snapshot file damaged: the row is
  in the table, \<open>content.html\<close> is missing and \<open>info.json\<close> is not a JSON document.
\<close>

definition torn_fs :: filesystem where
  "torn_fs =
     empty_fs @
     [(hello_dir, Dir),
      (hello_dir @ [str ''assets''], Dir),
      (hello_dir @ [str ''info.json''], File (Text (str ''{ id: 1, tit'')))]"

text \<open>The first post with only its content file lost.\<close>

definition lost_content_fs :: filesystem where
  "lost_content_fs =
     empty_fs @
     [(hello_dir, Dir),
      (hello_dir @ [str ''assets''], Dir),
      (hello_dir @ [str ''info.json''], File (Json hello_info))]"

text \<open>
  The first post with an upload staged by \<open>multer\<close>, and the same without the staged
  copy; an upload that \<open>multer\<close> measured at one byte over 10 MiB, and a small one.
\<close>

definition staged_fs :: filesystem where
  "staged_fs =
     hello_fs @
     [([str ''srv'', str ''blog'', str ''uploads''], Dir),
      ([str ''srv'', str ''blog'', str ''uploads'', str ''3f2a9c''], File (Text (str ''PNG'')))]"

definition unstaged_fs :: filesystem where
  "unstaged_fs = hello_fs @ [([str ''srv'', str ''blog'', str ''uploads''], Dir)]"

definition big_upload :: upload_file where
  "big_upload =
     \<lparr>file_path = [str ''srv'', str ''blog'', str ''uploads'', str ''3f2a9c''],
      originalname = str ''cat.png'', file_size = 10485761\<rparr>"

definition small_upload :: upload_file where
  "small_upload =
     \<lparr>file_path = [str ''srv'', str ''blog'', str ''uploads'', str ''3f2a9c''],
      originalname = str ''cat.png'', file_size = 3\<rparr>"









section \<open>What the claims on \<open>rebuildDatabaseFromFiles\<close> speak of\<close>

















section \<open>Lemmas on the slug\<close>

lemma replace_all_Nil: "m b [] = None \<Longrightarrow> replace_all m r b [] = []"
  by (subst replace_all.simps) simp

lemma replace_all_None:
  "m b (c # cs) = None \<Longrightarrow> replace_all m r b (c # cs) = c # replace_all m r False cs"
  by (subst replace_all.simps) simp

lemma replace_all_Some:
  "m b (c # cs) = Some (Suc k) \<Longrightarrow>
     replace_all m r b (c # cs) = r @ replace_all m r False (drop k cs)"
  by (subst replace_all.simps) simp

lemma replace_runs_collapse: "replace_all run_outside [45] b s = collapse s"
proof (induction s arbitrary: b rule: length_induct)
  case (1 s)
  show ?case
  proof (cases s)
    case Nil
    then show ?thesis by (simp add: run_outside_def replace_all_Nil)
  next
    case (Cons c cs)
    show ?thesis
    proof (cases "permitted c")
      case True
      then have "run_outside b s = None" by (simp add: run_outside_def Cons)
      with True Cons 1 show ?thesis by (simp add: replace_all_None)
    next
      case False
      let ?n = "length (takeWhile (\<lambda>c. \<not> permitted c) cs)"
      from False have m: "run_outside b s = Some (Suc ?n)" by (simp add: run_outside_def Cons)
      have d: "drop ?n cs = dropWhile (\<lambda>c. \<not> permitted c) cs"
        by (simp add: dropWhile_eq_drop)
      have "length (dropWhile (\<lambda>c. \<not> permitted c) cs) < length s"
        by (simp add: Cons le_imp_less_Suc length_dropWhile_le)
      with 1 have "replace_all run_outside [45] False (dropWhile (\<lambda>c. \<not> permitted c) cs)
          = collapse (dropWhile (\<lambda>c. \<not> permitted c) cs)" by blast
      with m d False Cons show ?thesis by (simp add: replace_all_Some)
    qed
  qed
qed

lemma rev_strip_Cons:
  assumes "\<not> (\<forall>x\<in>set (c # cs). is_dash x)"
  shows "rev (dropWhile is_dash (rev (c # cs))) = c # rev (dropWhile is_dash (rev cs))"
proof (cases "\<forall>x\<in>set cs. is_dash x")
  case True
  with assms have "\<not> is_dash c" by simp
  with True show ?thesis by (simp add: dropWhile_append)
next
  case False
  then show ?thesis by (auto simp: dropWhile_append)
qed

lemma strip_tail: "replace_all edge_dashes [] False s = rev (dropWhile is_dash (rev s))"
proof (induction s)
  case Nil
  then show ?case by (simp add: edge_dashes_def replace_all_Nil)
next
  case (Cons c cs)
  show ?case
  proof (cases "\<forall>x\<in>set (c # cs). is_dash x")
    case True
    then have tw: "takeWhile is_dash (c # cs) = c # cs" by (simp add: takeWhile_eq_all_conv)
    then have "edge_dashes False (c # cs) = Some (Suc (length cs))"
      unfolding edge_dashes_def Let_def by simp
    moreover have "dropWhile is_dash (rev (c # cs)) = []"
      using True by simp
    ultimately show ?thesis by (simp add: replace_all_Some replace_all_Nil edge_dashes_def)
  next
    case False
    then have "takeWhile is_dash (c # cs) \<noteq> c # cs"
      by (simp only: takeWhile_eq_all_conv not_False_eq_True)
    then have "length (takeWhile is_dash (c # cs)) \<noteq> length (c # cs)"
      by (metis takeWhile_eq_take take_all_iff le_refl)
    then have "edge_dashes False (c # cs) = None"
      unfolding edge_dashes_def Let_def by simp
    then show ?thesis using Cons rev_strip_Cons [OF False] by (simp add: replace_all_None)
  qed
qed

lemma trim_edges: "replace_all edge_dashes [] True s = trim_dashes s"
proof (cases s)
  case Nil
  then show ?thesis by (simp add: edge_dashes_def trim_dashes_def replace_all_Nil)
next
  case (Cons c cs)
  show ?thesis
  proof (cases "is_dash c")
    case True
    let ?n = "length (takeWhile is_dash cs)"
    from True have m: "edge_dashes True s = Some (Suc ?n)"
      unfolding edge_dashes_def Let_def by (simp add: Cons)
    have d: "drop ?n cs = dropWhile is_dash s"
      using True by (simp add: Cons dropWhile_eq_drop)
    show ?thesis using m d by (simp add: Cons strip_tail trim_dashes_def replace_all_Some)
  next
    case False
    then have m: "edge_dashes True s = None"
      unfolding edge_dashes_def Let_def by (simp add: Cons)
    have "replace_all edge_dashes [] True s = c # replace_all edge_dashes [] False cs"
      using m by (simp add: Cons replace_all_None)
    also have "\<dots> = c # rev (dropWhile is_dash (rev cs))" by (simp add: strip_tail)
    also have "\<dots> = rev (dropWhile is_dash (rev (c # cs)))"
      using False rev_strip_Cons [of c cs] by simp
    finally show ?thesis using False by (simp add: Cons trim_dashes_def)
  qed
qed

lemma collapse_alphabet: "c \<in> set (collapse s) \<Longrightarrow> permitted c \<or> is_dash c"
proof (induction s arbitrary: c rule: length_induct)
  case (1 s)
  show ?case
  proof (cases s)
    case Nil
    with 1 show ?thesis by simp
  next
    case (Cons x xs)
    have "length (dropWhile (\<lambda>c. \<not> permitted c) xs) < length s"
      by (simp add: Cons le_imp_less_Suc length_dropWhile_le)
    with 1 Cons show ?thesis by (auto simp: is_dash_def split: if_splits)
  qed
qed

lemma trim_subset: "set (trim_dashes s) \<subseteq> set s"
proof -
  have "set (dropWhile is_dash (rev (dropWhile is_dash s))) \<subseteq> set (rev (dropWhile is_dash s))"
    by (auto dest: set_dropWhileD)
  also have "\<dots> \<subseteq> set s" by (auto dest: set_dropWhileD)
  finally show ?thesis by (simp add: trim_dashes_def)
qed

lemma str_dash: "str ''-'' = [45]"
  by (simp add: str_def)

section \<open>Lemmas on files and paths\<close>

lemma map_of_fs_put: "map_of (fs_put p n fs) q = (if q = p then Some n else map_of fs q)"
  by (induction fs) auto

lemma stat_fs_put:
  "p \<noteq> [] \<Longrightarrow> stat (fs_put p n fs) q = (if q = p then Some n else stat fs q)"
  by (simp add: stat_def map_of_fs_put)

lemma map_of_filter_neq: "map_of (filter (\<lambda>(q, n). q \<noteq> p) fs) q = (if q = p then None else map_of fs q)"
  by (induction fs) auto

lemma map_of_filter_keys:
  "map_of (filter (\<lambda>(q, n). P q) fs) q = (if P q then map_of fs q else None)"
  by (induction fs) auto

lemma stat_rmSync:
  "p \<noteq> [] \<Longrightarrow> stat (rmSync fs p) q = (if prefix p q then None else stat fs q)"
  by (auto simp: stat_def rmSync_def map_of_filter_keys)

lemma stat_writeFileSync:
  "writeFileSync fs p d = Inr fs' \<Longrightarrow> stat fs' q = (if q = p then Some (File d) else stat fs q)"
  by (cases "p = []")
     (auto simp: writeFileSync_def stat_def map_of_fs_put split: option.splits node.splits if_splits)

lemma stat_unlinkSync:
  "unlinkSync fs p = Inr fs' \<Longrightarrow> stat fs' q = (if q = p then None else stat fs q)"
  by (cases "p = []")
     (auto simp: unlinkSync_def stat_def map_of_filter_neq split: option.splits node.splits if_splits)

lemma stat_mkdirs:
  "mkdirs fs pre ss = Inr fs' \<Longrightarrow> stat fs q = Some n \<Longrightarrow> stat fs' q = Some n"
proof (induction ss arbitrary: fs pre)
  case Nil
  then show ?case by simp
next
  case (Cons s ss)
  show ?case
  proof (cases "stat fs (pre @ [s])")
    case None
    with Cons.prems have m: "mkdirs (fs_put (pre @ [s]) Dir fs) (pre @ [s]) ss = Inr fs'" by simp
    from None Cons.prems have "q \<noteq> pre @ [s]" by auto
    then have "stat (fs_put (pre @ [s]) Dir fs) q = Some n"
      using Cons.prems by (simp add: stat_fs_put)
    with Cons.IH m show ?thesis by blast
  next
    case (Some k)
    with Cons show ?thesis by (cases k) (auto split: if_splits)
  qed
qed

lemma stat_mkdirSync:
  "mkdirSync fs p = Inr fs' \<Longrightarrow> stat fs q = Some n \<Longrightarrow> stat fs' q = Some n"
  unfolding mkdirSync_def by (rule stat_mkdirs)


lemma decimal_digits: "list_all (\<lambda>c. 48 \<le> c \<and> c \<le> 57) (decimal n)"
proof (induction n rule: decimal.induct)
  case (1 n)
  show ?case
  proof (cases "n < 10")
    case True
    then show ?thesis by (subst decimal.simps) simp
  next
    case False
    with 1 have "list_all (\<lambda>c. 48 \<le> c \<and> c \<le> 57) (decimal (n div 10))" by simp
    moreover have "48 + n mod 10 \<le> 57"
    proof -
      have "n mod 10 < 10" by simp
      then show ?thesis by linarith
    qed
    ultimately show ?thesis using False by (subst decimal.simps) simp
  qed
qed

lemma decimal_not_Nil: "decimal n \<noteq> []"
  by (subst decimal.simps) simp

lemma split_from_plain: "47 \<notin> set s \<Longrightarrow> split_from cur s = [rev cur @ s]"
  by (induction s arbitrary: cur) auto

lemma split_slash_plain: "47 \<notin> set s \<Longrightarrow> split_slash s = [s]"
  by (simp add: split_slash_def split_from_plain)

lemma normalize_append: "normalize (xs @ ys) p = normalize ys (normalize xs p)"
  by (induction xs p rule: normalize.induct) auto

lemma path_join_plain:
  "plain_segment s \<Longrightarrow> path_join base (s # parts) = path_join (base @ [s]) parts"
  by (simp add: path_join_def plain_segment_def split_slash_plain)

lemma path_join_Nil: "path_join base [] = base"
  by (simp add: path_join_def)

lemma plain_toString: "plain_segment (toString i)"
proof -
  have d: "\<And>n. 47 \<notin> set (decimal n) \<and> 46 \<notin> set (decimal n) \<and> 45 \<notin> set (decimal n)"
    using decimal_digits by (fastforce simp: list_all_iff)
  have "47 \<notin> set (toString i)" using d by (simp add: toString_def)
  moreover have "toString i \<noteq> []" by (simp add: toString_def decimal_not_Nil)
  moreover have "46 \<notin> set (toString i)" using d by (simp add: toString_def)
  then have "toString i \<noteq> str ''.''" "toString i \<noteq> str ''..''"
    by (auto simp: str_def)
  ultimately show ?thesis by (simp add: plain_segment_def)
qed

lemma plain_literals:
  "plain_segment (str ''articles'')" "plain_segment (str ''assets'')"
  "plain_segment (str ''content.html'')" "plain_segment (str ''info.json'')"
  by (simp_all add: plain_segment_def str_def)

lemma ARTICLES_DIR_eq: "ARTICLES_DIR = dirname @ [str ''articles'']"
  by (simp add: ARTICLES_DIR_def path_join_plain plain_literals path_join_Nil)

lemma article_path_eq: "article_path i = ARTICLES_DIR @ [toString i]"
  by (simp add: article_path_def path_join_plain plain_toString path_join_Nil)

lemma content_path_eq: "content_path i = article_path i @ [str ''content.html'']"
  by (simp add: content_path_def path_join_plain plain_literals path_join_Nil)


lemma assets_path_eq: "assets_path i = article_path i @ [str ''assets'']"
  by (simp add: assets_path_def article_path_eq path_join_plain plain_literals plain_toString path_join_Nil)

section \<open>Lemmas for evaluating examples\<close>

lemma decimal_small: "n < 10 \<Longrightarrow> decimal n = [48 + n]"
  by (subst decimal.simps) simp

lemma decimal_big: "\<not> n < 10 \<Longrightarrow> decimal n = decimal (n div 10) @ [48 + n mod 10]"
  by (subst decimal.simps) simp

lemma replicate_small:
  "replicate 1 x = [x]" "replicate 2 x = [x, x]" "replicate 3 x = [x, x, x]"
  "replicate 4 x = [x, x, x, x]" "replicate 5 x = [x, x, x, x, x]"
  by (simp_all add: eval_nat_numeral)

lemmas clock_eval = CURRENT_TIMESTAMP_def toISOString_def date_text_def year_of_def
  month_of_def day_of_def month_from_march_def day_of_year_def year_of_era_def
  day_of_era_def clock_text_def pad_def decimal_small decimal_big replicate_small str_def

lemmas path_eval = path_join_def split_slash_def article_path_def content_path_def
  info_path_def assets_path_def asset_file_path_def folder_info_path_def ARTICLES_DIR_def
  dirname_def toString_def decimal_small decimal_big str_def

lemmas fs_eval = existsSync_def stat_def readFileSync_def writeFileSync_def mkdirSync_def
  rmSync_def unlinkSync_def readdirSync_def

lemma timestamp_example:
  "CURRENT_TIMESTAMP 1700000000000 = str ''2023-11-14 22:13:20''"
  by (simp add: clock_eval)

lemma iso_example: "toISOString 1700000000000 = str ''2023-11-14T22:13:20.000Z''"
  by (simp add: clock_eval)

lemma slug_example: "createSlug lower_basic (str ''Hello World'') = str ''hello-world''"
  by code_simp

lemmas example_eval =
  timestamp_example [unfolded str_def, simplified]
  iso_example [unfolded str_def, simplified]
  slug_example [unfolded str_def, simplified]

lemma hello_created:
  "createPost lower_basic (str ''Hello World'') (str ''<p>hi</p>'')
      1700000000000 1700000000000 1700000000000 empty_db empty_fs
   = (Inr (1, str ''hello-world'', hello_dir), hello_db, hello_fs)"
  by (simp add: createPost_def example_eval Let_def sql_insert_def empty_db_def next_rowid_def
       createArticleFolder_def fs_eval path_eval hello_dir_def empty_fs_def new_info_def
       JSON_stringify_def hello_db_def hello_row_def hello_fs_def hello_info_def)

section \<open>Lemmas on the table and on \<open>createPost\<close>\<close>

lemma le_fold_max: "(s::int) \<le> fold max xs s"
proof (induction xs arbitrary: s)
  case Nil
  then show ?case by simp
next
  case (Cons x xs)
  have "s \<le> max x s" by simp
  also have "\<dots> \<le> fold max xs (max x s)" by (rule Cons.IH)
  finally show ?case by simp
qed

lemma fold_max_ge: "x \<in> set xs \<Longrightarrow> (x::int) \<le> fold max xs s"
proof (induction xs arbitrary: s)
  case Nil
  then show ?case by simp
next
  case (Cons y ys)
  show ?case
  proof (cases "x = y")
    case True
    have "y \<le> max y s" by simp
    also have "\<dots> \<le> fold max ys (max y s)" by (rule le_fold_max)
    finally show ?thesis using True by simp
  next
    case False
    with Cons show ?thesis by simp
  qed
qed

lemma next_rowid_fresh: "r \<in> set (posts db) \<Longrightarrow> row_id r < next_rowid db"
proof -
  assume "r \<in> set (posts db)"
  then have "row_id r \<in> set (map row_id (posts db))" by simp
  then have "row_id r \<le> fold max (map row_id (posts db)) (posts_seq db)" by (rule fold_max_ge)
  then show ?thesis by (simp add: next_rowid_def)
qed

lemma find_snoc:
  "\<forall>x\<in>set xs. \<not> P x \<Longrightarrow> P y \<Longrightarrow> find P (xs @ [y]) = Some y"
  by (induction xs) auto

lemma sql_insert_Inr:
  assumes "sql_insert title slug t db = Inr (i, db1)"
  shows "i = next_rowid db"
    and "db1 = db\<lparr>posts := posts db @
            [\<lparr>row_id = i, row_title = title, row_slug = Some slug,
              row_created_at = SText (CURRENT_TIMESTAMP t),
              row_updated_at = SText (CURRENT_TIMESTAMP t)\<rparr>], posts_seq := i\<rparr>"
    and "sql_select i db1 =
           Some \<lparr>row_id = i, row_title = title, row_slug = Some slug,
                 row_created_at = SText (CURRENT_TIMESTAMP t),
                 row_updated_at = SText (CURRENT_TIMESTAMP t)\<rparr>"
proof -
  from assms show i: "i = next_rowid db"
    by (auto simp: sql_insert_def Let_def split: if_splits)
  from assms show d: "db1 = db\<lparr>posts := posts db @
            [\<lparr>row_id = i, row_title = title, row_slug = Some slug,
              row_created_at = SText (CURRENT_TIMESTAMP t),
              row_updated_at = SText (CURRENT_TIMESTAMP t)\<rparr>], posts_seq := i\<rparr>"
    by (auto simp: sql_insert_def Let_def split: if_splits)
  have "\<forall>r\<in>set (posts db). \<not> row_id r = i" using next_rowid_fresh i by fastforce
  then show "sql_select i db1 =
           Some \<lparr>row_id = i, row_title = title, row_slug = Some slug,
                 row_created_at = SText (CURRENT_TIMESTAMP t),
                 row_updated_at = SText (CURRENT_TIMESTAMP t)\<rparr>"
    unfolding sql_select_def d by (simp add: find_snoc)
qed

lemma createArticleFolder_path:
  "createArticleFolder fs i = (Inr p, fs1) \<Longrightarrow> p = article_path i"
  by (auto simp: createArticleFolder_def Let_def split: if_splits sum.splits)

lemma createPost_steps:
  assumes "createPost lc title content t tc tu db fs = (Inr (i, slug, p), db', fs')"
  obtains fs1 fs2 where
    "slug = createSlug lc title"
    "sql_insert title slug t db = Inr (i, db')"
    "createArticleFolder fs i = (Inr p, fs1)"
    "writeFileSync fs1 (content_path i) (Text content) = Inr fs2"
    "writeFileSync fs2 (info_path i) (Json (new_info i title slug tc tu)) = Inr fs'"
proof -
  from assms obtain fs1 fs2 where
    a: "slug = createSlug lc title"
      "sql_insert title slug t db = Inr (i, db')"
      "createArticleFolder fs i = (Inr p, fs1)"
      "writeFileSync fs1 (path_join p [str ''content.html'']) (Text content) = Inr fs2"
      "writeFileSync fs2 (path_join p [str ''info.json'']) (Json (new_info i title slug tc tu)) = Inr fs'"
    by (auto simp: createPost_def Let_def JSON_stringify_def split: sum.splits prod.splits)
  from a(3) have "p = article_path i" by (rule createArticleFolder_path)
  with a that show ?thesis by (simp add: content_path_def info_path_def)
qed

section \<open>Lemmas on \<open>deletePost\<close>\<close>

lemma parent_closed_stat:
  assumes "parent_closed fs" and "stat fs p = Some n" and "p \<noteq> []"
  shows "stat fs (butlast p) = Some Dir"
proof -
  from assms(2,3) have "map_of fs p = Some n" by (simp add: stat_def)
  then have "(p, n) \<in> set fs" by (rule map_of_SomeD)
  with assms(1) show ?thesis by (auto simp: parent_closed_def list_all_iff)
qed

lemma missing_below:
  assumes "parent_closed fs" and "stat fs a = None"
  shows "stat fs (a @ s) = None"
proof (induction s rule: rev_induct)
  case Nil
  from assms(2) show ?case by simp
next
  case (snoc x xs)
  show ?case
  proof (rule ccontr)
    assume "stat fs (a @ xs @ [x]) \<noteq> None"
    then obtain n where "stat fs (a @ xs @ [x]) = Some n" by blast
    from parent_closed_stat [OF assms(1) this]
    have "stat fs (butlast (a @ xs @ [x])) = Some Dir" by simp
    then have "stat fs (a @ xs) = Some Dir" by (simp add: butlast_append)
    with snoc show False by simp
  qed
qed

lemma article_path_not_root: "article_path i \<noteq> []"
  by (simp add: article_path_eq)

lemma sql_select_deleted: "sql_select i (sql_delete i db) = None"
  by (simp add: sql_select_def sql_delete_def find_None_iff)

lemma hello_parent_closed: "parent_closed hello_fs"
  by (simp add: parent_closed_def hello_fs_def empty_fs_def hello_dir_def stat_def str_def)

lemma hello_deleted: "deletePost 1 hello_db hello_fs = (\<lparr>posts = [], posts_seq = 1\<rparr>, empty_fs)"
  by (simp add: deletePost_def Let_def sql_delete_def hello_db_def hello_row_def fs_eval path_eval
        hello_fs_def empty_fs_def hello_dir_def)

section \<open>Lemmas on the upload route\<close>

lemma unlink_staged:
  assumes "stat fs p = Some (File d)"
  shows "unlinkSync fs p = Inr (filter (\<lambda>(q, n). q \<noteq> p) fs)"
    and "stat (filter (\<lambda>(q, n). q \<noteq> p) fs) q = (if q = p then None else stat fs q)"
proof -
  from assms show u: "unlinkSync fs p = Inr (filter (\<lambda>(q, n). q \<noteq> p) fs)"
    by (simp add: unlinkSync_def)
  then show "stat (filter (\<lambda>(q, n). q \<noteq> p) fs) q = (if q = p then None else stat fs q)"
    by (rule stat_unlinkSync)
qed

lemma uploadImageToPost_keeps:
  assumes "stat fs p = Some (File d)"
      and "uploadImageToPost fs postId buf name now rnd = (r, fs1)"
  shows "\<exists>d'. stat fs1 p = Some (File d')"
proof -
  obtain fsa where a: "(if \<not> existsSync fs (assets_path postId)
         then mkdirSync fs (assets_path postId) else Inr fs) = Inr fsa \<and>
       (fs1 = fsa \<or> (\<exists>q d'. writeFileSync fsa q d' = Inr fs1))
       \<or> fs1 = fs"
    using assms(2)
    by (auto simp: uploadImageToPost_def Let_def split: sum.splits if_splits)
  show ?thesis
  proof (cases "fs1 = fs")
    case True
    with assms(1) show ?thesis by simp
  next
    case False
    with a have m: "(if \<not> existsSync fs (assets_path postId)
         then mkdirSync fs (assets_path postId) else Inr fs) = Inr fsa"
      and w: "fs1 = fsa \<or> (\<exists>q d'. writeFileSync fsa q d' = Inr fs1)" by auto
    from m assms(1) have k: "stat fsa p = Some (File d)"
      by (auto split: if_splits dest: stat_mkdirSync)
    from w show ?thesis
    proof
      assume "fs1 = fsa"
      with k show ?thesis by simp
    next
      assume "\<exists>q d'. writeFileSync fsa q d' = Inr fs1"
      then obtain q d' where "writeFileSync fsa q d' = Inr fs1" by blast
      from stat_writeFileSync [OF this, of p] k show ?thesis by auto
    qed
  qed
qed

lemma upload_try_cases:
  assumes "stat fs (file_path f) = Some (File d)"
      and "upload_try fs postId f now rnd = (r, fs1)"
  shows "(\<exists>e d'. r = Inl e \<and> stat fs1 (file_path f) = Some (File d'))
         \<or> (\<exists>resp. r = Inr resp \<and> stat fs1 (file_path f) = None)"
proof (cases "10 * 1024 * 1024 < file_size f")
  case True
  with assms unlink_staged [OF assms(1)] show ?thesis
    by (auto simp: upload_try_def)
next
  case False
  from assms(1) have rd: "readFileSync fs (file_path f) = Inr d" by (simp add: readFileSync_def)
  obtain r1 fsu where u: "uploadImageToPost fs postId d (originalname f) now rnd = (r1, fsu)"
    by (cases "uploadImageToPost fs postId d (originalname f) now rnd") auto
  from uploadImageToPost_keeps [OF assms(1) u] obtain d' where
    k: "stat fsu (file_path f) = Some (File d')" by blast
  show ?thesis
  proof (cases r1)
    case (Inl e)
    with False rd u assms(2) k show ?thesis by (auto simp: upload_try_def)
  next
    case (Inr url)
    with False rd u assms(2) unlink_staged [OF k] show ?thesis
      by (auto simp: upload_try_def)
  qed
qed

lemma staged_file: "stat staged_fs (file_path big_upload) = Some (File (Text (str ''PNG'')))"
  by (simp add: staged_fs_def big_upload_def hello_fs_def empty_fs_def hello_dir_def stat_def str_def)

lemma big_rejected:
  "upload_image staged_fs 1 (Some big_upload) 1700000700000 (str ''k3j9x2abc'')
     = (Status400_too_large, unstaged_fs)"
  by (simp add: upload_image_def upload_try_def big_upload_def staged_fs_def unstaged_fs_def
        hello_fs_def empty_fs_def hello_dir_def fs_eval str_def)

lemma small_name: "decimal 1700000700000 = str ''1700000700000''"
  by (simp add: decimal_small decimal_big str_def)

lemma small_stored:
  "upload_image staged_fs 1 (Some small_upload) 1700000700000 (str ''k3j9x2abc'')
     = (Status200_url (str ''/api/article-asset/1/1700000700000-k3j9x2abc.png''),
        unstaged_fs @ [(hello_dir @ [str ''assets'', str ''1700000700000-k3j9x2abc.png''],
                        File (Text (str ''PNG'')))])"
  by (simp add: upload_image_def upload_try_def uploadImageToPost_def Let_def small_upload_def
        staged_fs_def unstaged_fs_def hello_fs_def empty_fs_def hello_dir_def fs_eval
        extname_def path_eval small_name [unfolded str_def, simplified])

section \<open>Lemmas on \<open>updatePost\<close>\<close>














section \<open>Lemmas on \<open>rebuildDatabaseFromFiles\<close>\<close>

































section \<open>The claims\<close>

text \<open>
  C5. \<open>createSlug\<close> is a function of the title alone, as every definition of this
  theory is a function of its arguments: the same title has the same slug. Whatever
  the case mapping, the slug is the lower-cased title with every run of code units
  outside the permitted alphabet (word characters and U+0400 to U+04FF) replaced by one
  separator, the separators at both ends trimmed, and the result cut to 100 code units;
  it is at most 100 code units long and has no code unit outside the alphabet and the
  separator.
\<close>

theorem createSlug_spec:
  "createSlug lc title = spec_slug (lc title)
   \<and> length (createSlug lc title) \<le> 100
   \<and> list_all (\<lambda>c. permitted c \<or> is_dash c) (createSlug lc title)"
proof -
  have eq: "createSlug lc title = spec_slug (lc title)"
    by (simp add: createSlug_def spec_slug_def str_dash replace_runs_collapse trim_edges)
  have "set (spec_slug (lc title)) \<subseteq> set (collapse (lc title))"
    unfolding spec_slug_def using trim_subset set_take_subset by fastforce
  then have "list_all (\<lambda>c. permitted c \<or> is_dash c) (spec_slug (lc title))"
    using collapse_alphabet by (auto simp: list_all_iff)
  moreover have "length (spec_slug (lc title)) \<le> 100" by (simp add: spec_slug_def)
  ultimately show ?thesis using eq by simp
qed

theorem createSlug_spec_witness:
  "createSlug lower_basic (str ''  Hello,  World!! v2 --'') = str ''hello-world-v2''
   \<and> spec_slug (lower_basic (str ''  Hello,  World!! v2 --'')) = str ''hello-world-v2''
   \<and> length (str ''hello-world-v2'') \<le> 100"
proof -
  have e: "createSlug lower_basic (str ''  Hello,  World!! v2 --'') = str ''hello-world-v2''"
    by code_simp
  have t: "createSlug lower_basic (str ''  Hello,  World!! v2 --'')
      = spec_slug (lower_basic (str ''  Hello,  World!! v2 --''))"
    using createSlug_spec [of lower_basic "str ''  Hello,  World!! v2 --''"] by blast
  from t [symmetric] e
  have s: "spec_slug (lower_basic (str ''  Hello,  World!! v2 --'')) = str ''hello-world-v2''"
    by (rule trans)
  have l: "length (str ''hello-world-v2'') \<le> 100" by (simp add: str_def)
  from e s l show ?thesis by blast
qed

text \<open>
  C2. Whenever the \<open>INSERT\<close> of \<open>createPost\<close> fails, \<open>createPost\<close> fails with the same
  error and leaves the database and the file system as they were: no row, no directory,
  no content file and no snapshot file. In particular this is so when the slug of the
  title is the slug of a row of the table, which violates the unique constraint.
\<close>

theorem createPost_insert_failure:
  "(sql_insert title (createSlug lc title) t db = Inl e
      \<longrightarrow> createPost lc title content t tc tu db fs = (Inl e, db, fs))
   \<and> ((\<exists>r\<in>set (posts db). row_slug r = Some (createSlug lc title))
      \<longrightarrow> createPost lc title content t tc tu db fs = (Inl SQLITE_CONSTRAINT_UNIQUE, db, fs))"
  by (simp add: createPost_def sql_insert_def Let_def)

theorem createPost_insert_failure_witness:
  "(\<exists>r\<in>set (posts hello_db). row_slug r = Some (createSlug lower_basic (str ''Hello, World!'')))
   \<and> createPost lower_basic (str ''Hello, World!'') (str ''<p>again</p>'')
        1700000600000 1700000600000 1700000600000 hello_db hello_fs
      = (Inl SQLITE_CONSTRAINT_UNIQUE, hello_db, hello_fs)"
proof -
  have s: "createSlug lower_basic (str ''Hello, World!'') = str ''hello-world''" by code_simp
  have h: "\<exists>r\<in>set (posts hello_db). row_slug r = Some (createSlug lower_basic (str ''Hello, World!''))"
    by (simp add: s hello_db_def hello_row_def)
  with createPost_insert_failure [of "str ''Hello, World!''" lower_basic 1700000600000 hello_db _
      "str ''<p>again</p>''" 1700000600000 1700000600000 hello_fs]
  show ?thesis by blast
qed

text \<open>
  C3, as amended. After a successful \<open>createPost\<close> the new row has the id the call
  returns, the title, the slug and, in both timestamp columns, \<open>CURRENT_TIMESTAMP\<close> at
  the instant of the \<open>INSERT\<close>; the snapshot file holds the same id, title and slug, and
  as \<open>created_at\<close> and \<open>updated_at\<close> the ISO 8601 texts of the two instants at which
  \<open>new Date()\<close> was evaluated. The id, the title and the slug of the snapshot are those of
  the row; the two timestamps are not the row's column values.
\<close>

theorem createPost_snapshot:
  assumes "createPost lc title content t_insert t_created t_updated db fs
             = (Inr (postId, slug, p), db', fs')"
  shows "sql_select postId db' =
           Some \<lparr>row_id = postId, row_title = title, row_slug = Some slug,
                 row_created_at = SText (CURRENT_TIMESTAMP t_insert),
                 row_updated_at = SText (CURRENT_TIMESTAMP t_insert)\<rparr>
         \<and> readFileSync fs' (info_path postId) =
             Inr (Json (JObj [(str ''id'', JNum postId),
                              (str ''title'', JStr title),
                              (str ''slug'', JStr slug),
                              (str ''created_at'', JStr (toISOString t_created)),
                              (str ''updated_at'', JStr (toISOString t_updated))]))"
proof -
  from assms obtain fs1 fs2 where
    ins: "sql_insert title slug t_insert db = Inr (postId, db')" and
    w: "writeFileSync fs2 (info_path postId) (Json (new_info postId title slug t_created t_updated)) = Inr fs'"
    by (rule createPost_steps)
  from w have "stat fs' (info_path postId)
      = Some (File (Json (new_info postId title slug t_created t_updated)))"
    by (simp add: stat_writeFileSync)
  then have "readFileSync fs' (info_path postId)
      = Inr (Json (new_info postId title slug t_created t_updated))"
    by (simp add: readFileSync_def)
  with sql_insert_Inr(3) [OF ins] show ?thesis by (simp add: new_info_def)
qed

theorem createPost_snapshot_witness:
  "createPost lower_basic (str ''Hello World'') (str ''<p>hi</p>'')
      1700000000000 1700000000000 1700000000000 empty_db empty_fs
     = (Inr (1, str ''hello-world'', hello_dir), hello_db, hello_fs)
   \<and> sql_select 1 hello_db =
       Some \<lparr>row_id = 1, row_title = str ''Hello World'', row_slug = Some (str ''hello-world''),
             row_created_at = SText (CURRENT_TIMESTAMP 1700000000000),
             row_updated_at = SText (CURRENT_TIMESTAMP 1700000000000)\<rparr>
   \<and> readFileSync hello_fs (info_path 1) =
       Inr (Json (JObj [(str ''id'', JNum 1),
                        (str ''title'', JStr (str ''Hello World'')),
                        (str ''slug'', JStr (str ''hello-world'')),
                        (str ''created_at'', JStr (toISOString 1700000000000)),
                        (str ''updated_at'', JStr (toISOString 1700000000000))]))"
  using createPost_snapshot [OF hello_created] hello_created by blast

text \<open>
  C3 as stated fails: the post created at the instant 1700000000000 has the row
  timestamp \<open>2023-11-14 22:13:20\<close> and the snapshot timestamp
  \<open>2023-11-14T22:13:20.000Z\<close>, even with all three clock readings at the same instant.
\<close>

theorem createPost_snapshot_counterexample:
  "createPost lower_basic (str ''Hello World'') (str ''<p>hi</p>'')
      1700000000000 1700000000000 1700000000000 empty_db empty_fs
     = (Inr (1, str ''hello-world'', hello_dir), hello_db, hello_fs)
   \<and> map_option row_created_at (sql_select 1 hello_db) = Some (SText (str ''2023-11-14 22:13:20''))
   \<and> snapshot_field hello_fs 1 (str ''created_at'')
       = Inr (Some (JStr (str ''2023-11-14T22:13:20.000Z'')))
   \<and> map_option row_updated_at (sql_select 1 hello_db) = Some (SText (str ''2023-11-14 22:13:20''))
   \<and> snapshot_field hello_fs 1 (str ''updated_at'')
       = Inr (Some (JStr (str ''2023-11-14T22:13:20.000Z'')))
   \<and> str ''2023-11-14 22:13:20'' \<noteq> str ''2023-11-14T22:13:20.000Z''"
proof -
  have r: "sql_select 1 hello_db = Some hello_row"
    by (simp add: sql_select_def hello_db_def hello_row_def)
  have f: "readFileSync hello_fs (info_path 1) = Inr (Json hello_info)"
    by (simp add: fs_eval path_eval hello_fs_def hello_dir_def empty_fs_def)
  have c: "snapshot_field hello_fs 1 (str ''created_at'')
       = Inr (Some (JStr (str ''2023-11-14T22:13:20.000Z'')))"
    unfolding snapshot_field_def f by (simp add: then_do_def hello_info_def str_def)
  have u: "snapshot_field hello_fs 1 (str ''updated_at'')
       = Inr (Some (JStr (str ''2023-11-14T22:13:20.000Z'')))"
    unfolding snapshot_field_def f by (simp add: then_do_def hello_info_def str_def)
  have n: "str ''2023-11-14 22:13:20'' \<noteq> str ''2023-11-14T22:13:20.000Z''"
    by (simp add: str_def)
  from hello_created r c u n show ?thesis by (simp add: hello_row_def)
qed

text \<open>
  C7. In a file system where every entry lies in a directory, \<open>deletePost(id)\<close> leaves
  no row with that id and nothing at or below the directory of the post, neither the
  content file nor the snapshot nor any asset, and \<open>getPostById(id)\<close> then returns
  \<open>null\<close>. This holds for every id, so for the id of every existing post.
\<close>

theorem deletePost_removes:
  assumes "parent_closed fs" and "deletePost postId db fs = (db', fs')"
  shows "sql_select postId db' = None
         \<and> (\<forall>p. prefix (article_path postId) p \<longrightarrow> stat fs' p = None)
         \<and> getPostById postId db' fs' = Inr None"
proof -
  from assms(2) have d: "db' = sql_delete postId db"
    by (simp add: deletePost_def Let_def)
  then have s: "sql_select postId db' = None" by (simp add: sql_select_deleted)
  have "stat fs' p = None" if "prefix (article_path postId) p" for p
  proof (cases "existsSync fs (article_path postId)")
    case True
    with assms(2) have "fs' = rmSync fs (article_path postId)"
      by (simp add: deletePost_def Let_def)
    with that show ?thesis by (simp add: stat_rmSync article_path_not_root)
  next
    case False
    with assms(2) have f: "fs' = fs" by (simp add: deletePost_def Let_def)
    from that obtain s where "p = article_path postId @ s" by (auto simp: prefix_def)
    moreover from False have "stat fs (article_path postId) = None" by (simp add: existsSync_def)
    ultimately show ?thesis using missing_below [OF assms(1)] f by simp
  qed
  with s show ?thesis by (simp add: getPostById_def)
qed

theorem deletePost_removes_witness:
  "parent_closed hello_fs
   \<and> deletePost 1 hello_db hello_fs = (\<lparr>posts = [], posts_seq = 1\<rparr>, empty_fs)
   \<and> sql_select 1 hello_db = Some hello_row
   \<and> sql_select 1 \<lparr>posts = [], posts_seq = 1\<rparr> = None
   \<and> stat hello_fs (content_path 1) = Some (File (Text (str ''<p>hi</p>'')))
   \<and> prefix (article_path 1) (content_path 1)
   \<and> stat empty_fs (content_path 1) = None
   \<and> getPostById 1 \<lparr>posts = [], posts_seq = 1\<rparr> empty_fs = Inr None"
proof -
  note t = deletePost_removes [OF hello_parent_closed hello_deleted]
  have r: "sql_select 1 hello_db = Some hello_row"
    by (simp add: sql_select_def hello_db_def hello_row_def)
  have c: "stat hello_fs (content_path 1) = Some (File (Text (str ''<p>hi</p>'')))"
    by (simp add: fs_eval path_eval hello_fs_def hello_dir_def empty_fs_def)
  have p: "prefix (article_path 1) (content_path 1)" by (simp add: content_path_eq)
  from t p have "stat empty_fs (content_path 1) = None" by blast
  with t r c p hello_parent_closed hello_deleted show ?thesis by blast
qed

text \<open>
  C9, as amended. \<open>getPostById(id)\<close> returns \<open>null\<close> exactly when the table has no row
  with that id. When the row exists, the content file is missing, and the snapshot
  file is missing too or holds a JSON document, the read succeeds and returns the row
  with the empty content (and the snapshot, when there is one).
\<close>

theorem getPostById_found:
  "(getPostById postId db fs = Inr None \<longleftrightarrow> sql_select postId db = None)
   \<and> (sql_select postId db = Some r \<and> \<not> existsSync fs (content_path postId)
        \<and> \<not> existsSync fs (info_path postId)
      \<longrightarrow> getPostById postId db fs
            = Inr (Some \<lparr>post_row = r, post_content = Text [], post_info = None\<rparr>))
   \<and> (sql_select postId db = Some r \<and> \<not> existsSync fs (content_path postId)
        \<and> readFileSync fs (info_path postId) = Inr (Json v)
      \<longrightarrow> getPostById postId db fs
            = Inr (Some \<lparr>post_row = r, post_content = Text [], post_info = Some v\<rparr>))"
proof -
  have a: "getPostById postId db fs = Inr None \<longleftrightarrow> sql_select postId db = None"
    by (auto simp: getPostById_def then_do_def split: option.splits sum.splits)
  have b: "getPostById postId db fs
            = Inr (Some \<lparr>post_row = r, post_content = Text [], post_info = None\<rparr>)"
    if "sql_select postId db = Some r" "\<not> existsSync fs (content_path postId)"
       "\<not> existsSync fs (info_path postId)"
    using that by (simp add: getPostById_def then_do_def)
  have c: "getPostById postId db fs
            = Inr (Some \<lparr>post_row = r, post_content = Text [], post_info = Some v\<rparr>)"
    if "sql_select postId db = Some r" "\<not> existsSync fs (content_path postId)"
       "readFileSync fs (info_path postId) = Inr (Json v)"
  proof -
    from that(3) have "existsSync fs (info_path postId)"
      by (auto simp: readFileSync_def existsSync_def split: option.splits)
    with that show ?thesis by (simp add: getPostById_def then_do_def)
  qed
  from a b c show ?thesis by blast
qed

theorem getPostById_found_witness:
  "sql_select 1 hello_db = Some hello_row
   \<and> \<not> existsSync lost_content_fs (content_path 1)
   \<and> readFileSync lost_content_fs (info_path 1) = Inr (Json hello_info)
   \<and> getPostById 1 hello_db lost_content_fs
       = Inr (Some \<lparr>post_row = hello_row, post_content = Text [], post_info = Some hello_info\<rparr>)
   \<and> \<not> existsSync empty_fs (content_path 1)
   \<and> \<not> existsSync empty_fs (info_path 1)
   \<and> getPostById 1 hello_db empty_fs
       = Inr (Some \<lparr>post_row = hello_row, post_content = Text [], post_info = None\<rparr>)
   \<and> sql_select 2 hello_db = None
   \<and> getPostById 2 hello_db hello_fs = Inr None"
proof -
  have r: "sql_select 1 hello_db = Some hello_row"
    by (simp add: sql_select_def hello_db_def hello_row_def)
  have r2: "sql_select 2 hello_db = None"
    by (simp add: sql_select_def hello_db_def hello_row_def)
  have c: "\<not> existsSync lost_content_fs (content_path 1)"
    by (simp add: fs_eval path_eval lost_content_fs_def hello_dir_def empty_fs_def)
  have i: "readFileSync lost_content_fs (info_path 1) = Inr (Json hello_info)"
    by (simp add: fs_eval path_eval lost_content_fs_def hello_dir_def empty_fs_def)
  have c0: "\<not> existsSync empty_fs (content_path 1)"
    by (simp add: fs_eval path_eval empty_fs_def)
  have i0: "\<not> existsSync empty_fs (info_path 1)"
    by (simp add: fs_eval path_eval empty_fs_def)
  from getPostById_found [of 1 hello_db lost_content_fs hello_row hello_info] r c i
  have g1: "getPostById 1 hello_db lost_content_fs
       = Inr (Some \<lparr>post_row = hello_row, post_content = Text [], post_info = Some hello_info\<rparr>)"
    by blast
  from getPostById_found [of 1 hello_db empty_fs hello_row] r c0 i0
  have g0: "getPostById 1 hello_db empty_fs
       = Inr (Some \<lparr>post_row = hello_row, post_content = Text [], post_info = None\<rparr>)"
    by blast
  from getPostById_found [of 2 hello_db hello_fs] r2
  have g2: "getPostById 2 hello_db hello_fs = Inr None" by blast
  from r r2 c i c0 i0 g1 g0 g2 show ?thesis by blast
qed

text \<open>
  C9 as stated fails: with the row in the table, the content file missing and a
  snapshot file that is not a JSON document, \<open>JSON.parse\<close> throws and the read fails.
\<close>

theorem getPostById_found_counterexample:
  "sql_select 1 hello_db = Some hello_row
   \<and> \<not> existsSync torn_fs (content_path 1)
   \<and> getPostById 1 hello_db torn_fs = Inl SyntaxError"
proof -
  have r: "sql_select 1 hello_db = Some hello_row"
    by (simp add: sql_select_def hello_db_def hello_row_def)
  have c: "\<not> existsSync torn_fs (content_path 1)"
    by (simp add: fs_eval path_eval torn_fs_def hello_dir_def empty_fs_def)
  have e: "existsSync torn_fs (info_path 1)"
    by (simp add: fs_eval path_eval torn_fs_def hello_dir_def empty_fs_def)
  have i: "readFileSync torn_fs (info_path 1) = Inr (Text (str ''{ id: 1, tit''))"
    by (simp add: fs_eval path_eval torn_fs_def hello_dir_def empty_fs_def)
  from r c e i show ?thesis by (simp add: getPostById_def then_do_def)
qed

text \<open>
  C10. \<open>getArticleAsset\<close> reads whatever file the joined and normalised path
  designates, for every file name: nothing is checked before. For the file name \<open>../info.json\<close>,
  which has a parent-directory segment, the path is that of the snapshot of the post,
  outside its assets directory, and the bytes of the snapshot are returned although
  the assets directory is empty: nothing was ever uploaded to the post.
\<close>

theorem getArticleAsset_traversal:
  "getArticleAsset fs postId filename =
     (case stat fs (normalize (split_slash filename) (assets_path postId)) of
        None \<Rightarrow> Inr None
      | Some Dir \<Rightarrow> Inl EISDIR
      | Some (File d) \<Rightarrow> if ends_with_slash filename then Inr None else Inr (Some d))
   \<and> str ''..'' \<in> set (split_slash (str ''../info.json''))
   \<and> normalize (split_slash (str ''../info.json'')) (assets_path 1) = info_path 1
   \<and> \<not> prefix (assets_path 1) (info_path 1)
   \<and> readdirSync hello_fs (assets_path 1) = Inr []
   \<and> getArticleAsset hello_fs 1 (str ''../info.json'') = Inr (Some (Json hello_info))"
proof -
  have j: "asset_file_path postId filename
      = normalize (split_slash filename) (assets_path postId)"
    by (simp add: asset_file_path_def assets_path_eq article_path_eq path_join_def
          split_slash_plain normalize_append plain_toString [unfolded plain_segment_def]
          plain_literals [unfolded plain_segment_def])
  have a: "getArticleAsset fs postId filename =
     (case stat fs (normalize (split_slash filename) (assets_path postId)) of
        None \<Rightarrow> Inr None
      | Some Dir \<Rightarrow> Inl EISDIR
      | Some (File d) \<Rightarrow> if ends_with_slash filename then Inr None else Inr (Some d))"
    by (simp add: getArticleAsset_def Let_def j exists_named_def readFileSync_def then_do_def
          split: option.splits node.splits)
  have b: "str ''..'' \<in> set (split_slash (str ''../info.json''))"
    by (simp add: split_slash_def str_def)
  have c: "normalize (split_slash (str ''../info.json'')) (assets_path 1) = info_path 1"
    by (simp add: path_eval)
  have d: "\<not> prefix (assets_path 1) (info_path 1)"
    by (simp add: path_eval)
  have e: "readdirSync hello_fs (assets_path 1) = Inr []"
    by (simp add: fs_eval path_eval hello_fs_def hello_dir_def empty_fs_def)
  have f: "getArticleAsset hello_fs 1 (str ''../info.json'') = Inr (Some (Json hello_info))"
    by (simp add: getArticleAsset_def Let_def then_do_def exists_named_def ends_with_slash_def
          fs_eval path_eval hello_fs_def hello_dir_def empty_fs_def)
  from a b c d e f show ?thesis by blast
qed

text \<open>
  C8. When the handler runs with the upload staged as a file at \<open>req.file.path\<close>, then
  whatever the outcome, the success or any failure, the staged copy is gone afterwards.
  When the upload is larger than 10 MiB the response is the size-limit error, and
  removing the staged copy is the only change of the file system: no file is written
  into the assets directory of the post.
\<close>

theorem upload_image_cleanup:
  assumes "stat fs (file_path f) = Some (File d)"
      and "upload_image fs postId (Some f) now rnd = (response, fs')"
  shows "\<not> existsSync fs' (file_path f)
         \<and> (10 * 1024 * 1024 < file_size f \<longrightarrow>
              response = Status400_too_large
              \<and> (\<forall>q. q \<noteq> file_path f \<longrightarrow> stat fs' q = stat fs q))"
proof -
  obtain r fs1 where t: "upload_try fs postId f now rnd = (r, fs1)"
    by (cases "upload_try fs postId f now rnd") auto
  have gone: "\<not> existsSync fs' (file_path f)"
    using upload_try_cases [OF assms(1) t]
  proof
    assume "\<exists>e d'. r = Inl e \<and> stat fs1 (file_path f) = Some (File d')"
    then obtain e d' where r: "r = Inl e" and k: "stat fs1 (file_path f) = Some (File d')"
      by blast
    from k have "existsSync fs1 (file_path f)" by (simp add: existsSync_def)
    with assms(2) t r unlink_staged [OF k] show ?thesis
      by (auto simp: upload_image_def existsSync_def)
  next
    assume "\<exists>resp. r = Inr resp \<and> stat fs1 (file_path f) = None"
    with assms(2) t show ?thesis by (auto simp: upload_image_def existsSync_def)
  qed
  have big: "response = Status400_too_large \<and> (\<forall>q. q \<noteq> file_path f \<longrightarrow> stat fs' q = stat fs q)"
    if "10 * 1024 * 1024 < file_size f"
    using that assms(2) unlink_staged [OF assms(1)]
    by (auto simp: upload_image_def upload_try_def)
  from gone big show ?thesis by blast
qed

theorem upload_image_cleanup_witness:
  "stat staged_fs (file_path big_upload) = Some (File (Text (str ''PNG'')))
   \<and> 10 * 1024 * 1024 < file_size big_upload
   \<and> upload_image staged_fs 1 (Some big_upload) 1700000700000 (str ''k3j9x2abc'')
       = (Status400_too_large, unstaged_fs)
   \<and> \<not> existsSync unstaged_fs (file_path big_upload)
   \<and> stat unstaged_fs (assets_path 1) = stat staged_fs (assets_path 1)
   \<and> readdirSync unstaged_fs (assets_path 1) = Inr []
   \<and> upload_image staged_fs 1 (Some small_upload) 1700000700000 (str ''k3j9x2abc'')
       = (Status200_url (str ''/api/article-asset/1/1700000700000-k3j9x2abc.png''),
          unstaged_fs @ [(hello_dir @ [str ''assets'', str ''1700000700000-k3j9x2abc.png''],
                          File (Text (str ''PNG'')))])
   \<and> \<not> existsSync
         (unstaged_fs @ [(hello_dir @ [str ''assets'', str ''1700000700000-k3j9x2abc.png''],
                          File (Text (str ''PNG'')))])
         (file_path small_upload)"
proof -
  have b: "10 * 1024 * 1024 < file_size big_upload" by (simp add: big_upload_def)
  have n: "assets_path 1 \<noteq> file_path big_upload"
    by (simp add: path_eval big_upload_def)
  have r: "readdirSync unstaged_fs (assets_path 1) = Inr []"
    by (simp add: fs_eval path_eval unstaged_fs_def hello_fs_def hello_dir_def empty_fs_def)
  have p: "file_path small_upload = file_path big_upload"
    by (simp add: small_upload_def big_upload_def)
  from upload_image_cleanup [OF staged_file big_rejected] b n
  have g: "\<not> existsSync unstaged_fs (file_path big_upload)
      \<and> stat unstaged_fs (assets_path 1) = stat staged_fs (assets_path 1)" by blast
  from upload_image_cleanup [OF staged_file [folded p] small_stored]
  have s: "\<not> existsSync
         (unstaged_fs @ [(hello_dir @ [str ''assets'', str ''1700000700000-k3j9x2abc.png''],
                          File (Text (str ''PNG'')))])
         (file_path small_upload)" by blast
  from staged_file b big_rejected r g small_stored s show ?thesis by blast
qed










end
